theory Spec2Isabelle
  imports Complex_Main
begin

section \<open>JavaScript values used by the player\<close>

text \<open>
  A JavaScript number is either a proper number or \<open>NaN\<close>. The episode index is an
  integer-valued number, a playback offset is a fraction of a second; both are modelled
  exactly (\<open>int\<close>, \<open>rat\<close>), with \<open>NaN\<close> as a value of its own: it is what
  \<open>x % 0\<close> and \<open>Number(s)\<close> of a malformed string produce, and every comparison
  with it is false.
\<close>

datatype 'a jsnum = Num 'a | NaN

fun js_add :: "int jsnum \<Rightarrow> int jsnum \<Rightarrow> int jsnum" where
  "js_add (Num a) (Num b) = Num (a + b)"
| "js_add _ _ = NaN"

fun js_sub :: "int jsnum \<Rightarrow> int jsnum \<Rightarrow> int jsnum" where
  "js_sub (Num a) (Num b) = Num (a - b)"
| "js_sub _ _ = NaN"

text \<open>The remainder operator \<open>%\<close>: truncated, with the sign of the dividend; \<open>NaN\<close> for a zero divisor.\<close>

fun js_rem :: "int jsnum \<Rightarrow> int jsnum \<Rightarrow> int jsnum" where
  "js_rem (Num a) (Num b) = (if b = 0 then NaN else Num (sgn a * (\<bar>a\<bar> mod \<bar>b\<bar>)))"
| "js_rem _ _ = NaN"

text \<open>Strict equality \<open>===\<close> and \<open>>\<close> on numbers.\<close>

fun js_eq :: "'a jsnum \<Rightarrow> 'a jsnum \<Rightarrow> bool" where
  "js_eq (Num a) (Num b) = (a = b)"
| "js_eq _ _ = False"

fun js_gt :: "('a::linorder) jsnum \<Rightarrow> 'a jsnum \<Rightarrow> bool" where
  "js_gt (Num a) (Num b) = (b < a)"
| "js_gt _ _ = False"

text \<open>
  The built-ins of the platform the code calls, taken as parameters: \<open>Number(s)\<close>,
  \<open>x.toString()\<close>, and the two locale-dependent renderings of \<open>new Date(pubDate)\<close>.
\<close>

record js_env =
  numberOf :: "string \<Rightarrow> rat jsnum"
  toString :: "rat jsnum \<Rightarrow> string"
  weekdayOf :: "string \<Rightarrow> string"
  timeOf :: "string \<Rightarrow> string"

section \<open>Data model\<close>

record episode =
  ep_id :: string
  ep_source :: string
  ep_audioUrl :: string
  ep_image :: "string option"
  ep_pubDate :: "string option"

record voice =
  voice_name :: string
  voice_lang :: string

datatype result = Ended | Interrupted

datatype utt_event = End | Error | Pause | Abort

text \<open>
  What waits on an announcement promise: the rest of \<open>handlePlay\<close>, the rest of
  \<open>handleCanPlay\<close> (of the listener with the given identity), or the rest of
  \<open>handleEnded\<close>; the first two have captured the saved offset.
\<close>

datatype cont = KPlay "rat jsnum" | KCanPlay nat "rat jsnum" | KEnded

record utterance =
  utt_text :: string
  utt_voice :: "voice option"
  settled :: "result option"
  awaiter :: "cont option"

text \<open>The closure \<open>handleCanPlay\<close> registered on the audio element, with what it captured.\<close>

record listener =
  lid :: nat
  l_source :: string
  l_pubDate :: "string option"
  l_audioUrl :: string

text \<open>Side effects in program order: writes of the announced flag, audio calls, speech calls.\<close>

datatype action =
  MarkAnnounced | ResetAnnounced
  | AudioPause | AudioPlay | Seek "rat jsnum"
  | SpeechCancel | Speak nat

datatype error = ReferenceError | TypeError

text \<open>
  The state of the page: the component state of \<open>EpisodeList\<close>, the module state and the
  refs of the three hooks, the refs of \<open>PodcastPlayer\<close>, the audio element, and the
  pending timers. A timer is represented by the time (ms) at which it is due;
  \<open>saveTimeout\<close> holds the throttle timer, \<open>None\<close> being \<open>null\<close>.
\<close>

record app =
  episodes :: "episode list"
  currentIndex :: "int jsnum"
  loading :: bool
  speechAvailable :: bool
  cachedGoogleVoice :: "voice option"
  isAnnouncing :: bool
  announcedRef :: bool
  utterances :: "utterance list"
  localStorage :: "string \<rightharpoonup> string"
  saveTimeout :: "nat option"
  userPlayedRef :: bool
  skipJustHappenedRef :: bool
  audioMounted :: bool
  currentTime :: "rat jsnum"
  canplayListener :: "listener option"
  nextListener :: nat
  pendingFinish :: "nat list"
  resumeTimers :: "nat list"
  clock :: nat
  trace :: "action list"

text \<open>The props \<open>PodcastPlayer\<close> receives; the callbacks act on the page state.\<close>

record props =
  source :: string
  audioUrl :: string
  image :: "string option"
  pubDate :: "string option"
  isLastEpisode :: "bool option"
  onClickNext :: "(app \<Rightarrow> app) option"
  onClickPrevious :: "(app \<Rightarrow> app) option"
  onEnded :: "(app \<Rightarrow> app) option"

section \<open>EpisodeList: the sequencer\<close>

definition handleNext :: "app \<Rightarrow> app" where
  "handleNext s =
     s\<lparr>currentIndex :=
         js_rem (js_add (currentIndex s) (Num 1)) (Num (int (length (episodes s))))\<rparr>"

definition handlePrevious :: "app \<Rightarrow> app" where
  "handlePrevious s =
     s\<lparr>currentIndex :=
         (if js_eq (currentIndex s) (Num 0)
          then js_sub (Num (int (length (episodes s)))) (Num 1)
          else js_sub (currentIndex s) (Num 1))\<rparr>"

text \<open>\<open>episodes[currentIndex] ?? null\<close>: an index that is no position of the array reads \<open>undefined\<close>.\<close>

definition currentEpisode :: "app \<Rightarrow> episode option" where
  "currentEpisode s =
     (case currentIndex s of
        Num i \<Rightarrow> (if 0 \<le> i \<and> i < int (length (episodes s))
                  then Some (episodes s ! nat i) else None)
      | NaN \<Rightarrow> None)"

text \<open>The props \<open>EpisodeList\<close> passes down; it passes no \<open>isLastEpisode\<close>.\<close>

definition playerProps :: "app \<Rightarrow> props" where
  "playerProps s =
     \<lparr>source = (case currentEpisode s of Some e \<Rightarrow> ep_source e | None \<Rightarrow> ''''),
      audioUrl = (case currentEpisode s of Some e \<Rightarrow> ep_audioUrl e | None \<Rightarrow> ''''),
      image = (case currentEpisode s of Some e \<Rightarrow> ep_image e | None \<Rightarrow> None),
      pubDate = (case currentEpisode s of Some e \<Rightarrow> ep_pubDate e | None \<Rightarrow> None),
      isLastEpisode = None,
      onClickNext = Some handleNext,
      onClickPrevious = Some handlePrevious,
      onEnded = Some handleNext\<rparr>"

section \<open>The audio element and the canplay listener\<close>

definition audio_pause :: "app \<Rightarrow> app" where
  "audio_pause s = s\<lparr>trace := trace s @ [AudioPause]\<rparr>"

definition audio_play :: "app \<Rightarrow> app" where
  "audio_play s = s\<lparr>trace := trace s @ [AudioPlay]\<rparr>"

definition set_currentTime :: "rat jsnum \<Rightarrow> app \<Rightarrow> app" where
  "set_currentTime t s = s\<lparr>currentTime := t, trace := trace s @ [Seek t]\<rparr>"

text \<open>Removing a closure that is no longer the registered one removes nothing.\<close>

definition removeEventListener :: "nat \<Rightarrow> app \<Rightarrow> app" where
  "removeEventListener i s =
     (case canplayListener s of
        None \<Rightarrow> s
      | Some l \<Rightarrow> (if lid l = i then s\<lparr>canplayListener := None\<rparr> else s))"

section \<open>useSpeechAnnouncement\<close>

definition loadVoices :: "voice list \<Rightarrow> app \<Rightarrow> app" where
  "loadVoices voices s =
     s\<lparr>cachedGoogleVoice := find (\<lambda>v. voice_name v = ''Google UK English Female'') voices\<rparr>"

definition announce_text :: "js_env \<Rightarrow> string \<Rightarrow> bool \<Rightarrow> string option \<Rightarrow> bool \<Rightarrow> string" where
  "announce_text env name isContinuing pd skipPrefix =
     (if skipPrefix then name
      else case pd of
        None \<Rightarrow> ''From '' @ name @ ''.''
      | Some d \<Rightarrow>
          (if d = [] then ''From '' @ name @ ''.''
           else if isContinuing
             then ''Continuing '' @ name @ '', from '' @ weekdayOf env d @ '' at '' @ timeOf env d @ ''.''
             else ''From '' @ name @ '', on '' @ weekdayOf env d @ '' at '' @ timeOf env d @ ''.''))"

text \<open>
  The promise \<open>announcePodcastNameAndWait\<close> returns is either already resolved
  (\<open>Inl\<close>) or that of the utterance it has just handed to the synthesizer (\<open>Inr\<close>).
\<close>

definition announcePodcastNameAndWait ::
  "js_env \<Rightarrow> string \<Rightarrow> bool \<Rightarrow> string option \<Rightarrow> bool \<Rightarrow> app \<Rightarrow> (result + nat) \<times> app" where
  "announcePodcastNameAndWait env name isContinuing pd skipPrefix s =
     (if isAnnouncing s \<or> \<not> speechAvailable s then (Inl Ended, s)
      else
        (Inr (length (utterances s)),
         s\<lparr>isAnnouncing := True,
           utterances := utterances s @
             [\<lparr>utt_text = announce_text env name isContinuing pd skipPrefix,
               utt_voice = cachedGoogleVoice s, settled = None, awaiter = None\<rparr>],
           trace := trace s @ [SpeechCancel, Speak (length (utterances s))]\<rparr>))"

definition announce ::
  "js_env \<Rightarrow> string \<Rightarrow> bool \<Rightarrow> string option \<Rightarrow> bool \<Rightarrow> app \<Rightarrow> (result + nat) \<times> app" where
  "announce env name isContinuing pd skipPrefix s =
     announcePodcastNameAndWait env name isContinuing pd skipPrefix s"

text \<open>
  \<open>speechSynthesis.cancel()\<close> names a global that does not exist where the capability
  is absent: the call raises before the flag is written.
\<close>

definition cancelAnnouncement :: "app \<Rightarrow> error option \<times> app" where
  "cancelAnnouncement s =
     (if speechAvailable s
      then (None, s\<lparr>trace := trace s @ [SpeechCancel], isAnnouncing := False\<rparr>)
      else (Some ReferenceError, s))"

definition resetAnnouncedFlag :: "app \<Rightarrow> app" where
  "resetAnnouncedFlag s = s\<lparr>announcedRef := False, trace := trace s @ [ResetAnnounced]\<rparr>"

definition setAnnouncedFlag :: "app \<Rightarrow> app" where
  "setAnnouncedFlag s = s\<lparr>announcedRef := True, trace := trace s @ [MarkAnnounced]\<rparr>"

definition hasAnnounced :: "app \<Rightarrow> bool" where
  "hasAnnounced s = announcedRef s"

section \<open>useProgressPersistence\<close>

definition SAVE_INTERVAL_MS :: nat where
  "SAVE_INTERVAL_MS = 5000"

definition storageKey :: "string \<Rightarrow> string" where
  "storageKey url = ''progress_'' @ url"

text \<open>
  Assigning a value that is no finite number to \<open>currentTime\<close> raises \<open>TypeError\<close> and
  leaves the position as it was.
\<close>

definition loadProgress :: "js_env \<Rightarrow> string \<Rightarrow> app \<Rightarrow> error option \<times> app" where
  "loadProgress env url s =
     (if url = [] then (None, s)
      else if \<not> audioMounted s then (None, s)
      else case localStorage s (storageKey url) of
        None \<Rightarrow> (None, s)
      | Some v \<Rightarrow>
          (if v = [] then (None, s)
           else case numberOf env v of
             NaN \<Rightarrow> (Some TypeError, s)
           | Num x \<Rightarrow> (None, set_currentTime (Num x) s)))"

definition handleListen :: "js_env \<Rightarrow> string \<Rightarrow> app \<Rightarrow> app" where
  "handleListen env url s =
     (if \<not> audioMounted s then s
      else if url = [] then s
      else if saveTimeout s \<noteq> None then s
      else s\<lparr>localStorage := (localStorage s)(storageKey url \<mapsto> toString env (currentTime s)),
             saveTimeout := Some (clock s + SAVE_INTERVAL_MS)\<rparr>)"

definition clearProgress :: "string \<Rightarrow> app \<Rightarrow> app" where
  "clearProgress url s =
     (if url \<noteq> [] then s\<lparr>localStorage := (localStorage s)(storageKey url := None)\<rparr> else s)"

definition getSavedProgress :: "js_env \<Rightarrow> string \<Rightarrow> app \<Rightarrow> rat jsnum" where
  "getSavedProgress env url s =
     (if url = [] then Num 0
      else case localStorage s (storageKey url) of
        None \<Rightarrow> Num 0
      | Some v \<Rightarrow> (if v = [] then Num 0 else numberOf env v))"

text \<open>Time passing, and the throttle timer's callback, which can run once it is due.\<close>

definition elapse :: "nat \<Rightarrow> app \<Rightarrow> app" where
  "elapse d s = s\<lparr>clock := clock s + d\<rparr>"

definition fire_save_timer :: "app \<Rightarrow> app" where
  "fire_save_timer s =
     (case saveTimeout s of
        None \<Rightarrow> s
      | Some due \<Rightarrow> (if due \<le> clock s then s\<lparr>saveTimeout := None\<rparr> else s))"

section \<open>PodcastPlayer: what runs after an announcement\<close>

text \<open>The end of \<open>handleCanPlay\<close>: the skip is over and the listener detaches itself.\<close>

definition finish_canplay :: "nat \<Rightarrow> app \<Rightarrow> app" where
  "finish_canplay i s = removeEventListener i (s\<lparr>skipJustHappenedRef := False\<rparr>)"

text \<open>
  The code after \<open>await announce(...)\<close>. The seek comes first, then the result is
  inspected. \<open>handleCanPlay\<close> goes on after \<open>await audioEl.play()\<close> has settled:
  until then it is recorded in \<open>pendingFinish\<close>.
\<close>

fun run_cont :: "cont \<Rightarrow> result \<Rightarrow> app \<Rightarrow> app" where
  "run_cont (KPlay progress) r s =
     (let s1 = (if js_gt progress (Num 0) then set_currentTime progress s else s)
      in if r = Ended then audio_play s1 else s1)"
| "run_cont (KCanPlay i progress) r s =
     (let s1 = (if js_gt progress (Num 0) then set_currentTime progress s else s)
      in if r = Ended
         then (let s2 = audio_play s1 in s2\<lparr>pendingFinish := pendingFinish s2 @ [i]\<rparr>)
         else finish_canplay i s1)"
| "run_cont KEnded r s = s"

definition play_settled :: "app \<Rightarrow> app" where
  "play_settled s =
     (case pendingFinish s of
        [] \<Rightarrow> s
      | i # rest \<Rightarrow> finish_canplay i (s\<lparr>pendingFinish := rest\<rparr>))"

text \<open>
  \<open>await\<close> on the promise of an announcement: a resolved promise lets the caller go on
  at once, a pending one records the caller on the utterance.
\<close>

definition await_announce :: "(result + nat) \<Rightarrow> cont \<Rightarrow> app \<Rightarrow> app" where
  "await_announce pr k s =
     (case pr of
        Inl r \<Rightarrow> run_cont k r s
      | Inr uid \<Rightarrow>
          s\<lparr>utterances := (utterances s)[uid := (utterances s ! uid)\<lparr>awaiter := Some k\<rparr>]\<rparr>)"

text \<open>
  The listeners of an utterance: \<open>end\<close> and \<open>error\<close> resolve as \<open>'ended'\<close>,
  \<open>pause\<close> and \<open>abort\<close> as \<open>'interrupted'\<close>. Resolving a settled promise does nothing.
\<close>

fun result_of :: "utt_event \<Rightarrow> result" where
  "result_of End = Ended"
| "result_of Error = Ended"
| "result_of Pause = Interrupted"
| "result_of Abort = Interrupted"

definition handleEndOrAbort :: "nat \<Rightarrow> result \<Rightarrow> app \<Rightarrow> app" where
  "handleEndOrAbort uid ty s =
     (let s1 = s\<lparr>isAnnouncing := False\<rparr>; u = utterances s1 ! uid
      in case settled u of
           Some r \<Rightarrow> s1
         | None \<Rightarrow>
             (let s2 = s1\<lparr>utterances := (utterances s1)[uid := u\<lparr>settled := Some ty\<rparr>]\<rparr>
              in case awaiter u of None \<Rightarrow> s2 | Some k \<Rightarrow> run_cont k ty s2))"

definition utterance_event :: "nat \<Rightarrow> utt_event \<Rightarrow> app \<Rightarrow> app" where
  "utterance_event uid ev s =
     (if uid < length (utterances s) then handleEndOrAbort uid (result_of ev) s else s)"

section \<open>PodcastPlayer: effects and handlers\<close>

definition effect_reset :: "props \<Rightarrow> app \<Rightarrow> app" where
  "effect_reset p s = (if audioUrl p = [] then s else resetAnnouncedFlag s)"

text \<open>
  The effect that follows a skip; the cleanup of its previous run has removed the
  previous listener. Its zero-delay timer has an empty body and is left out.
\<close>

definition effect_skip :: "props \<Rightarrow> app \<Rightarrow> app" where
  "effect_skip p s =
     (let s0 = s\<lparr>canplayListener := None\<rparr>
      in if audioUrl p = [] then s0
         else if source p = [] then s0
         else if \<not> audioMounted s0 then s0
         else if \<not> skipJustHappenedRef s0 then s0
         else s0\<lparr>canplayListener :=
                   Some \<lparr>lid = nextListener s0, l_source = source p,
                         l_pubDate = pubDate p, l_audioUrl = audioUrl p\<rparr>,
                 nextListener := Suc (nextListener s0)\<rparr>)"

definition handleCanPlay :: "js_env \<Rightarrow> listener \<Rightarrow> app \<Rightarrow> app" where
  "handleCanPlay env l s =
     (if hasAnnounced s
      then removeEventListener (lid l) (s\<lparr>skipJustHappenedRef := False\<rparr>)
      else
        (let s1 = setAnnouncedFlag s;
             s2 = audio_pause s1;
             progress = getSavedProgress env (l_audioUrl l) s2;
             (pr, s3) = announce env (l_source l) (js_gt progress (Num 2)) (l_pubDate l) False s2
         in await_announce pr (KCanPlay (lid l) progress) s3))"

definition farewell :: string where
  "farewell = ''That's all for today. See you next time!''"

definition handleEnded :: "js_env \<Rightarrow> props \<Rightarrow> app \<Rightarrow> app" where
  "handleEnded env p s =
     (let s1 = clearProgress (audioUrl p) s;
          s2 = (case onEnded p of Some f \<Rightarrow> f s1 | None \<Rightarrow> s1)
      in if isLastEpisode p = Some True
         then (let (pr, s3) = announce env farewell False None True s2
               in await_announce pr KEnded s3)
         else (case onClickNext p of
                 Some f \<Rightarrow> f (s2\<lparr>skipJustHappenedRef := True\<rparr>)
               | None \<Rightarrow> s2))"

definition handlePlay :: "js_env \<Rightarrow> props \<Rightarrow> app \<Rightarrow> app" where
  "handlePlay env p s =
     (if \<not> audioMounted s then s
      else if source p = [] then s
      else if audioUrl p = [] then s
      else
        (let s0 = s\<lparr>userPlayedRef := True\<rparr>
         in if hasAnnounced s0 then s0
            else
              (let s1 = setAnnouncedFlag s0;
                   s2 = audio_pause s1;
                   progress = getSavedProgress env (audioUrl p) s2;
                   (pr, s3) = announce env (source p) (js_gt progress (Num 2)) (pubDate p) False s2
               in await_announce pr (KPlay progress) s3)))"

text \<open>The skip buttons of the player. A handler that raises leaves the state as it was then.\<close>

definition player_handleNext :: "props \<Rightarrow> app \<Rightarrow> error option \<times> app" where
  "player_handleNext p s =
     (case cancelAnnouncement s of
        (Some e, s1) \<Rightarrow> (Some e, s1)
      | (None, s1) \<Rightarrow>
          (let s2 = s1\<lparr>skipJustHappenedRef := True\<rparr>
           in (None, case onClickNext p of Some f \<Rightarrow> f s2 | None \<Rightarrow> s2)))"

definition player_handlePrevious :: "props \<Rightarrow> app \<Rightarrow> error option \<times> app" where
  "player_handlePrevious p s =
     (case cancelAnnouncement s of
        (Some e, s1) \<Rightarrow> (Some e, s1)
      | (None, s1) \<Rightarrow>
          (let s2 = s1\<lparr>skipJustHappenedRef := True\<rparr>
           in (None, case onClickPrevious p of Some f \<Rightarrow> f s2 | None \<Rightarrow> s2)))"

section \<open>useMediaSession\<close>

definition RESUME_DELAY_MS :: nat where
  "RESUME_DELAY_MS = 250"

definition previoustrack :: "props \<Rightarrow> app \<Rightarrow> error option \<times> app" where
  "previoustrack p s =
     (case onClickPrevious p of
        None \<Rightarrow> (None, s)
      | Some f \<Rightarrow>
          (case cancelAnnouncement (s\<lparr>skipJustHappenedRef := True\<rparr>) of
             (Some e, s1) \<Rightarrow> (Some e, s1)
           | (None, s1) \<Rightarrow>
               (let s2 = f s1
                in (None, s2\<lparr>resumeTimers := resumeTimers s2 @ [clock s2 + RESUME_DELAY_MS]\<rparr>))))"

definition nexttrack :: "props \<Rightarrow> app \<Rightarrow> error option \<times> app" where
  "nexttrack p s =
     (case onClickNext p of
        None \<Rightarrow> (None, s)
      | Some f \<Rightarrow>
          (case cancelAnnouncement (s\<lparr>skipJustHappenedRef := True\<rparr>) of
             (Some e, s1) \<Rightarrow> (Some e, s1)
           | (None, s1) \<Rightarrow>
               (let s2 = f s1
                in (None, s2\<lparr>resumeTimers := resumeTimers s2 @ [clock s2 + RESUME_DELAY_MS]\<rparr>))))"

text \<open>
  The callback of the oldest resume timer, once due:
  \<open>audioRef.current?.audio?.current?.play()\<close>. It reads neither the announced flag nor
  the busy flag.
\<close>

definition fire_resume_timer :: "app \<Rightarrow> app" where
  "fire_resume_timer s =
     (case resumeTimers s of
        [] \<Rightarrow> s
      | due # rest \<Rightarrow>
          (if due \<le> clock s
           then (let s1 = s\<lparr>resumeTimers := rest\<rparr>
                 in if audioMounted s1 then audio_play s1 else s1)
           else s))"

section \<open>Runs\<close>

text \<open>
  What can happen during one activation of an episode: the user presses play, the
  audio element signals \<open>canplay\<close> to the registered listener, an utterance signals one
  of its events, a \<open>play()\<close> promise settles. The page has one event loop: a handler
  runs without interruption up to its first pending \<open>await\<close>, and what follows the
  \<open>await\<close> runs as a turn of its own when the promise is resolved.
\<close>

datatype event = UserPlay | CanPlay | UttEvent nat utt_event | PlaySettled

fun step :: "js_env \<Rightarrow> props \<Rightarrow> event \<Rightarrow> app \<Rightarrow> app" where
  "step env p UserPlay s = handlePlay env p s"
| "step env p CanPlay s =
     (case canplayListener s of None \<Rightarrow> s | Some l \<Rightarrow> handleCanPlay env l s)"
| "step env p (UttEvent uid ev) s = utterance_event uid ev s"
| "step env p PlaySettled s = play_settled s"

fun run :: "js_env \<Rightarrow> props \<Rightarrow> event list \<Rightarrow> app \<Rightarrow> app" where
  "run env p [] s = s"
| "run env p (e # es) s = run env p es (step env p e s)"

text \<open>The progress store over time: time passes, the throttle timer fires, the player reports a position.\<close>

datatype store_event = Elapse nat | TimerFires | Listen string "rat jsnum"

fun store_step :: "js_env \<Rightarrow> store_event \<Rightarrow> app \<Rightarrow> app" where
  "store_step env (Elapse d) s = elapse d s"
| "store_step env TimerFires s = fire_save_timer s"
| "store_step env (Listen url t) s = handleListen env url (s\<lparr>currentTime := t\<rparr>)"

fun store_run :: "js_env \<Rightarrow> store_event list \<Rightarrow> app \<Rightarrow> app" where
  "store_run env [] s = s"
| "store_run env (e # es) s = store_run env es (store_step env e s)"

fun elapsed :: "store_event list \<Rightarrow> nat" where
  "elapsed [] = 0"
| "elapsed (Elapse d # es) = d + elapsed es"
| "elapsed (_ # es) = elapsed es"

definition speaks :: "action list \<Rightarrow> nat" where
  "speaks tr = length (filter (\<lambda>a. case a of Speak u \<Rightarrow> True | _ \<Rightarrow> False) tr)"

text \<open>What the code after an announcement adds to the trace, and what a handler that claims the slot adds.\<close>

definition after_trace :: "rat jsnum \<Rightarrow> result \<Rightarrow> action list" where
  "after_trace progress r =
     (if js_gt progress (Num 0) then [Seek progress] else []) @
     (if r = Ended then [AudioPlay] else [])"

definition claim_trace :: "app \<Rightarrow> rat jsnum \<Rightarrow> action list" where
  "claim_trace s progress =
     [MarkAnnounced, AudioPause] @
     (if isAnnouncing s \<or> \<not> speechAvailable s then after_trace progress Ended
      else [SpeechCancel, Speak (length (utterances s))])"

section \<open>Sample data\<close>

definition sample_env :: js_env where
  "sample_env =
     \<lparr>numberOf = (\<lambda>x. if x = ''42'' then Num 42 else if x = ''7.5'' then Num (15 / 2) else NaN),
      toString = (\<lambda>x. if x = Num 42 then ''42'' else if x = Num (15 / 2) then ''7.5'' else ''NaN''),
      weekdayOf = (\<lambda>d. ''Tuesday''),
      timeOf = (\<lambda>d. ''9:00 AM'')\<rparr>"

definition sample_episodes :: "episode list" where
  "sample_episodes =
     [\<lparr>ep_id = ''1'', ep_source = ''A'', ep_audioUrl = ''a.mp3'', ep_image = None, ep_pubDate = None\<rparr>,
      \<lparr>ep_id = ''2'', ep_source = ''B'', ep_audioUrl = ''b.mp3'', ep_image = None,
        ep_pubDate = Some ''2024-05-07T09:00:00Z''\<rparr>,
      \<lparr>ep_id = ''3'', ep_source = ''C'', ep_audioUrl = ''c.mp3'', ep_image = None, ep_pubDate = None\<rparr>]"

text \<open>
  The page as \<open>EpisodeList\<close> and \<open>PodcastPlayer\<close> mount it, for a list of episodes, an
  index, a storage content, and a platform with or without speech synthesis. The
  player renders the audio element when it is not loading and the current episode has a
  non-empty \<open>audioUrl\<close>.
\<close>

definition mounted :: "episode list \<Rightarrow> int \<Rightarrow> (string \<rightharpoonup> string) \<Rightarrow> bool \<Rightarrow> app" where
  "mounted eps i store speech =
     \<lparr>episodes = eps, currentIndex = Num i, loading = False,
      speechAvailable = speech, cachedGoogleVoice = None, isAnnouncing = False,
      announcedRef = False, utterances = [],
      localStorage = store, saveTimeout = None,
      userPlayedRef = False, skipJustHappenedRef = False,
      audioMounted = (0 \<le> i \<and> i < int (length eps) \<and> ep_audioUrl (eps ! nat i) \<noteq> []),
      currentTime = Num 0,
      canplayListener = None, nextListener = 0, pendingFinish = [],
      resumeTimers = [], clock = 0, trace = []\<rparr>"

definition after_skip :: app where
  "after_skip =
     effect_skip (playerProps (mounted sample_episodes 1 Map.empty True))
       ((mounted sample_episodes 1 Map.empty True)\<lparr>skipJustHappenedRef := True\<rparr>)"

definition sample_listener :: listener where
  "sample_listener =
     \<lparr>lid = 0, l_source = ''B'', l_pubDate = Some ''2024-05-07T09:00:00Z'', l_audioUrl = ''b.mp3''\<rparr>"

definition last_playing :: app where
  "last_playing = mounted sample_episodes 2 [storageKey ''c.mp3'' \<mapsto> ''42''] True"

definition announcing :: app where
  "announcing = handlePlay sample_env (playerProps after_skip) after_skip"

definition resumed :: app where
  "resumed = after_skip\<lparr>localStorage := [storageKey ''b.mp3'' \<mapsto> ''42'']\<rparr>"

definition listening :: app where
  "listening = (mounted sample_episodes 0 Map.empty True)\<lparr>currentTime := Num 42\<rparr>"

section \<open>The sequencer wraps around\<close>

lemma handleNext_index:
  assumes "episodes s \<noteq> []" "currentIndex s = Num i" "0 \<le> i" "i < int (length (episodes s))"
  shows "currentIndex (handleNext s) = Num ((i + 1) mod int (length (episodes s)))"
  using assms by (simp add: handleNext_def sgn_if)

lemma handleNext_episodes: "episodes (handleNext s) = episodes s"
  by (simp add: handleNext_def)

lemma handleNext_funpow_episodes: "episodes ((handleNext ^^ k) s) = episodes s"
  by (induction k) (simp_all add: handleNext_episodes)

lemma handleNext_funpow_index:
  assumes "episodes s \<noteq> []" "currentIndex s = Num i" "0 \<le> i" "i < int (length (episodes s))"
  shows "currentIndex ((handleNext ^^ k) s) = Num ((i + int k) mod int (length (episodes s)))"
proof (induction k)
  case 0
  then show ?case using assms by simp
next
  case (Suc k)
  let ?n = "int (length (episodes s))"
  let ?t = "(handleNext ^^ k) s"
  have n: "0 < ?n" using assms(1) by simp
  have "currentIndex (handleNext ?t) = Num (((i + int k) mod ?n + 1) mod int (length (episodes ?t)))"
    by (rule handleNext_index) (use Suc n assms(1) in \<open>simp_all add: handleNext_funpow_episodes\<close>)
  moreover have "((i + int k) mod ?n + 1) mod ?n = (i + int k + 1) mod ?n"
    by (rule mod_add_left_eq)
  moreover have "i + int k + 1 = i + int (Suc k)" by simp
  ultimately show ?case
    by (simp add: handleNext_funpow_episodes)
qed

lemma handleNext_funpow_only_index: "\<exists>c. (handleNext ^^ k) s = s\<lparr>currentIndex := c\<rparr>"
proof (induction k)
  case 0
  have "s = s\<lparr>currentIndex := currentIndex s\<rparr>" by simp
  then show ?case by (metis funpow_0)
next
  case (Suc k)
  then obtain c where c: "(handleNext ^^ k) s = s\<lparr>currentIndex := c\<rparr>" by blast
  have "(handleNext ^^ Suc k) s = handleNext ((handleNext ^^ k) s)" by simp
  also have "\<dots> = handleNext (s\<lparr>currentIndex := c\<rparr>)" by (simp only: c)
  also have "\<dots> = s\<lparr>currentIndex := js_rem (js_add c (Num 1)) (Num (int (length (episodes s))))\<rparr>"
    by (simp add: handleNext_def)
  finally show ?case by blast
qed

text \<open>
  C5. For a non-empty list of \<open>n\<close> episodes and an index \<open>i\<close> with \<open>0 \<le> i < n\<close>:
  \<open>handleNext\<close> stores \<open>(i + 1) mod n\<close>, \<open>n\<close> applications of it give the state
  back, \<open>handlePrevious\<close> stores \<open>n - 1\<close> at index \<open>0\<close> and \<open>i - 1\<close> otherwise.
\<close>

theorem sequencer_wraps:
  assumes "episodes s \<noteq> []" and "currentIndex s = Num i" and "0 \<le> i"
    and "i < int (length (episodes s))"
  shows "currentIndex (handleNext s) = Num ((i + 1) mod int (length (episodes s)))
       \<and> (handleNext ^^ length (episodes s)) s = s
       \<and> (i = 0 \<longrightarrow> currentIndex (handlePrevious s) = Num (int (length (episodes s)) - 1))
       \<and> (0 < i \<longrightarrow> currentIndex (handlePrevious s) = Num (i - 1))"
proof -
  have a: "currentIndex (handleNext s) = Num ((i + 1) mod int (length (episodes s)))"
    using assms by (rule handleNext_index)
  have "currentIndex ((handleNext ^^ length (episodes s)) s) = Num i"
    using handleNext_funpow_index [OF assms, of "length (episodes s)"] assms by simp
  then have b: "(handleNext ^^ length (episodes s)) s = s"
    using handleNext_funpow_only_index [of "length (episodes s)" s] assms(2) by auto
  have c: "i = 0 \<longrightarrow> currentIndex (handlePrevious s) = Num (int (length (episodes s)) - 1)"
    using assms by (simp add: handlePrevious_def)
  have d: "0 < i \<longrightarrow> currentIndex (handlePrevious s) = Num (i - 1)"
    using assms by (simp add: handlePrevious_def)
  from a b c d show ?thesis by blast
qed

theorem sequencer_wraps_witness:
  "episodes (mounted sample_episodes 2 Map.empty True) \<noteq> []
   \<and> currentIndex (handleNext (mounted sample_episodes 2 Map.empty True)) = Num 0
   \<and> (handleNext ^^ 3) (mounted sample_episodes 2 Map.empty True)
       = mounted sample_episodes 2 Map.empty True
   \<and> currentIndex (handlePrevious (mounted sample_episodes 2 Map.empty True)) = Num 1
   \<and> currentIndex (handlePrevious (mounted sample_episodes 0 Map.empty True)) = Num 2"
  using sequencer_wraps [of "mounted sample_episodes 2 Map.empty True" 2]
    sequencer_wraps [of "mounted sample_episodes 0 Map.empty True" 0]
  by (simp add: mounted_def sample_episodes_def numeral_3_eq_3)

section \<open>The sequencer on an empty list\<close>

text \<open>
  On an empty list \<open>handleNext\<close> computes a remainder by zero and \<open>handlePrevious\<close>
  steps below zero: the stored index changes.
\<close>

theorem empty_list_index_changes:
  "currentIndex (mounted [] 0 Map.empty True) = Num 0
   \<and> currentIndex (handleNext (mounted [] 0 Map.empty True)) = NaN
   \<and> currentIndex (handlePrevious (mounted [] 0 Map.empty True)) = Num (- 1)
   \<and> \<not> (currentIndex (handleNext (mounted [] 0 Map.empty True))
           = currentIndex (mounted [] 0 Map.empty True)
        \<and> currentIndex (handlePrevious (mounted [] 0 Map.empty True))
           = currentIndex (mounted [] 0 Map.empty True))"
  by (simp add: mounted_def handleNext_def handlePrevious_def)

text \<open>
  C6, as the code has it. On an empty list the current episode is none, before and
  after \<open>handleNext\<close> and \<open>handlePrevious\<close>. The stored index is not kept:
  \<open>handleNext\<close> stores \<open>NaN\<close>, and \<open>handlePrevious\<close> stores \<open>-1\<close> at index \<open>0\<close>
  and the index minus one otherwise.
\<close>

theorem empty_list_current_none:
  assumes "episodes s = []"
  shows "currentEpisode s = None
       \<and> currentEpisode (handleNext s) = None
       \<and> currentEpisode (handlePrevious s) = None
       \<and> currentIndex (handleNext s) = NaN
       \<and> currentIndex (handlePrevious s)
           = (if js_eq (currentIndex s) (Num 0) then Num (- 1) else js_sub (currentIndex s) (Num 1))"
  using assms
  by (simp add: currentEpisode_def handleNext_def handlePrevious_def split: jsnum.splits)

theorem empty_list_current_none_witness:
  "episodes (mounted [] 0 Map.empty True) = []
   \<and> currentEpisode (mounted [] 0 Map.empty True) = None
   \<and> currentEpisode (handleNext (mounted [] 0 Map.empty True)) = None
   \<and> currentEpisode (handlePrevious (mounted [] 0 Map.empty True)) = None
   \<and> currentIndex (handleNext (mounted [] 0 Map.empty True)) = NaN
   \<and> currentIndex (handlePrevious (mounted [] 0 Map.empty True)) = Num (- 1)"
  using empty_list_current_none [of "mounted [] 0 Map.empty True"]
  by (simp add: mounted_def)

text \<open>With an empty list the props of the player carry an empty \<open>source\<close> and \<open>audioUrl\<close>.\<close>

lemma empty_list_props:
  assumes "episodes s = []"
  shows "source (playerProps s) = [] \<and> audioUrl (playerProps s) = []"
proof -
  have "currentEpisode s = None"
    using assms by (auto simp add: currentEpisode_def split: jsnum.splits)
  then show ?thesis by (simp add: playerProps_def)
qed

section \<open>One announcement per activation\<close>

lemma speaks_append: "speaks (xs @ ys) = speaks xs + speaks ys"
  by (simp add: speaks_def)

lemma speaks_simps:
  "speaks [] = 0" "speaks (Speak u # xs) = Suc (speaks xs)"
  "speaks (MarkAnnounced # xs) = speaks xs" "speaks (AudioPause # xs) = speaks xs"
  "speaks (AudioPlay # xs) = speaks xs" "speaks (Seek t # xs) = speaks xs"
  "speaks (SpeechCancel # xs) = speaks xs" "speaks (ResetAnnounced # xs) = speaks xs"
  by (simp_all add: speaks_def)

lemma removeEventListener_fields:
  "announcedRef (removeEventListener i s) = announcedRef s"
  "trace (removeEventListener i s) = trace s"
  "utterances (removeEventListener i s) = utterances s"
  "currentTime (removeEventListener i s) = currentTime s"
  "isAnnouncing (removeEventListener i s) = isAnnouncing s"
  by (simp_all add: removeEventListener_def split: option.splits)

lemma finish_canplay_fields:
  "announcedRef (finish_canplay i s) = announcedRef s"
  "trace (finish_canplay i s) = trace s"
  "utterances (finish_canplay i s) = utterances s"
  "currentTime (finish_canplay i s) = currentTime s"
  by (simp_all add: finish_canplay_def removeEventListener_fields)

lemma run_cont_trace:
  "trace (run_cont (KPlay g) r s) = trace s @ after_trace g r"
  "trace (run_cont (KCanPlay i g) r s) = trace s @ after_trace g r"
  "trace (run_cont KEnded r s) = trace s"
  by (simp_all add: after_trace_def Let_def set_currentTime_def audio_play_def finish_canplay_fields)

lemma speaks_after_trace: "speaks (after_trace g r) = 0"
  by (simp add: after_trace_def speaks_simps)

lemma run_cont_fields:
  "announcedRef (run_cont k r s) = announcedRef s"
  "utterances (run_cont k r s) = utterances s"
  "speaks (trace (run_cont k r s)) = speaks (trace s)"
  by (cases k; simp add: Let_def set_currentTime_def audio_play_def finish_canplay_fields speaks_append speaks_simps)+

lemma play_settled_fields:
  "announcedRef (play_settled s) = announcedRef s"
  "trace (play_settled s) = trace s"
  by (simp_all add: play_settled_def finish_canplay_fields split: list.splits)

lemma utterance_event_fields:
  "announcedRef (utterance_event uid ev s) = announcedRef s"
  "speaks (trace (utterance_event uid ev s)) = speaks (trace s)"
  by (simp_all add: utterance_event_def handleEndOrAbort_def Let_def run_cont_fields
      split: option.splits)

lemma handlePlay_announced:
  "announcedRef s \<Longrightarrow> trace (handlePlay env p s) = trace s"
  "announcedRef s \<Longrightarrow> announcedRef (handlePlay env p s)"
  "announcedRef s \<Longrightarrow> utterances (handlePlay env p s) = utterances s"
  "announcedRef s \<Longrightarrow> currentTime (handlePlay env p s) = currentTime s"
  by (simp_all add: handlePlay_def hasAnnounced_def)

lemma handleCanPlay_announced:
  "announcedRef s \<Longrightarrow> trace (handleCanPlay env l s) = trace s"
  "announcedRef s \<Longrightarrow> announcedRef (handleCanPlay env l s)"
  "announcedRef s \<Longrightarrow> utterances (handleCanPlay env l s) = utterances s"
  "announcedRef s \<Longrightarrow> currentTime (handleCanPlay env l s) = currentTime s"
  by (simp_all add: handleCanPlay_def hasAnnounced_def removeEventListener_fields)

lemma getSavedProgress_upd:
  "getSavedProgress env url (s\<lparr>trace := tr\<rparr>) = getSavedProgress env url s"
  "getSavedProgress env url (s\<lparr>announcedRef := b\<rparr>) = getSavedProgress env url s"
  "getSavedProgress env url (s\<lparr>userPlayedRef := b\<rparr>) = getSavedProgress env url s"
  by (simp_all add: getSavedProgress_def)

lemma handlePlay_claims:
  assumes "\<not> announcedRef s" "audioMounted s" "source p \<noteq> []" "audioUrl p \<noteq> []"
  shows "trace (handlePlay env p s) = trace s @ claim_trace s (getSavedProgress env (audioUrl p) s)"
    and "announcedRef (handlePlay env p s)"
  using assms
  by (simp_all add: handlePlay_def hasAnnounced_def setAnnouncedFlag_def audio_pause_def
      getSavedProgress_upd announce_def announcePodcastNameAndWait_def await_announce_def
      claim_trace_def run_cont_trace run_cont_fields Let_def del: run_cont.simps)

lemma handleCanPlay_claims:
  assumes "\<not> announcedRef s"
  shows "trace (handleCanPlay env l s) = trace s @ claim_trace s (getSavedProgress env (l_audioUrl l) s)"
    and "announcedRef (handleCanPlay env l s)"
  using assms
  by (simp_all add: handleCanPlay_def hasAnnounced_def setAnnouncedFlag_def audio_pause_def
      getSavedProgress_upd announce_def announcePodcastNameAndWait_def await_announce_def
      claim_trace_def run_cont_trace run_cont_fields Let_def del: run_cont.simps)

lemma speaks_claim_trace: "speaks (claim_trace s g) \<le> 1"
  by (simp add: claim_trace_def speaks_simps speaks_append speaks_after_trace)

lemma handlePlay_unguarded:
  "\<not> (audioMounted s \<and> source p \<noteq> [] \<and> audioUrl p \<noteq> []) \<Longrightarrow> handlePlay env p s = s"
  by (auto simp add: handlePlay_def)

lemma step_announced:
  assumes "announcedRef s"
  shows "announcedRef (step env p e s) \<and> speaks (trace (step env p e s)) = speaks (trace s)"
  using assms
  by (cases e)
     (simp_all add: handlePlay_announced handleCanPlay_announced utterance_event_fields
       play_settled_fields split: option.splits)

lemma step_unannounced:
  assumes "\<not> announcedRef s"
  shows "(\<not> announcedRef (step env p e s) \<and> speaks (trace (step env p e s)) = speaks (trace s))
       \<or> (announcedRef (step env p e s) \<and> speaks (trace (step env p e s)) \<le> Suc (speaks (trace s)))"
proof (cases e)
  case UserPlay
  show ?thesis
  proof (cases "audioMounted s \<and> source p \<noteq> [] \<and> audioUrl p \<noteq> []")
    case True
    then show ?thesis
      using assms handlePlay_claims [of s p env] speaks_claim_trace [of s "getSavedProgress env (audioUrl p) s"]
      by (simp add: UserPlay speaks_append)
  next
    case False
    then show ?thesis using assms by (simp add: UserPlay handlePlay_unguarded)
  qed
next
  case CanPlay
  show ?thesis
  proof (cases "canplayListener s")
    case None
    then show ?thesis using assms by (simp add: CanPlay)
  next
    case (Some l)
    then show ?thesis
      using assms handleCanPlay_claims [of s env l]
        speaks_claim_trace [of s "getSavedProgress env (l_audioUrl l) s"]
      by (simp add: CanPlay speaks_append)
  qed
next
  case (UttEvent uid ev)
  then show ?thesis using assms by (simp add: utterance_event_fields)
next
  case PlaySettled
  then show ?thesis using assms by (simp add: play_settled_fields)
qed

lemma run_announced:
  "announcedRef s \<Longrightarrow> speaks (trace (run env p evs s)) = speaks (trace s)"
proof (induction evs arbitrary: s)
  case Nil
  then show ?case by simp
next
  case (Cons e evs)
  from step_announced [OF Cons.prems, of env p e]
  have a: "announcedRef (step env p e s)"
    and b: "speaks (trace (step env p e s)) = speaks (trace s)" by simp_all
  show ?case using Cons.IH [OF a] b by simp
qed

lemma run_unannounced:
  "\<not> announcedRef s \<Longrightarrow> speaks (trace (run env p evs s)) \<le> Suc (speaks (trace s))"
proof (induction evs arbitrary: s)
  case Nil
  then show ?case by simp
next
  case (Cons e evs)
  show ?case
  proof (cases "announcedRef (step env p e s)")
    case True
    with step_unannounced [OF Cons.prems, of env p e]
    have "speaks (trace (step env p e s)) \<le> Suc (speaks (trace s))" by simp
    then show ?thesis using run_announced [OF True, of env p evs] by simp
  next
    case False
    with step_unannounced [OF Cons.prems, of env p e]
    have "speaks (trace (step env p e s)) = speaks (trace s)" by simp
    then show ?thesis using Cons.IH [OF False] by simp
  qed
qed


text \<open>
  C1. During one activation, that is from a state in which the announced flag is
  false, and whatever the order in which user-play, canplay, utterance events and
  settled \<open>play()\<close> promises arrive, at most one utterance is spoken. Each of the two
  paths, finding the flag false, writes it before anything else, the pause included:
  its trace starts with the write of the flag, then the pause, then either the
  utterance or, when the announcement resolves at once, the seek and the play. A path that
  finds the flag true leaves trace, utterances and playback position as they are.
\<close>

theorem at_most_one_announcement:
  "(\<not> announcedRef s \<longrightarrow> speaks (trace (run env p evs s)) \<le> Suc (speaks (trace s)))
   \<and> (\<not> announcedRef s \<and> audioMounted s \<and> source p \<noteq> [] \<and> audioUrl p \<noteq> [] \<longrightarrow>
        announcedRef (handlePlay env p s)
        \<and> trace (handlePlay env p s)
            = trace s @ claim_trace s (getSavedProgress env (audioUrl p) s))
   \<and> (\<not> announcedRef s \<longrightarrow>
        announcedRef (handleCanPlay env l s)
        \<and> trace (handleCanPlay env l s)
            = trace s @ claim_trace s (getSavedProgress env (l_audioUrl l) s))
   \<and> (announcedRef t \<longrightarrow>
        trace (handlePlay env p t) = trace t
        \<and> utterances (handlePlay env p t) = utterances t
        \<and> currentTime (handlePlay env p t) = currentTime t
        \<and> trace (handleCanPlay env l t) = trace t
        \<and> utterances (handleCanPlay env l t) = utterances t
        \<and> currentTime (handleCanPlay env l t) = currentTime t)"
  using run_unannounced [of s env p evs] handlePlay_claims [of s p env]
    handleCanPlay_claims [of s env l] handlePlay_announced [of t env p]
    handleCanPlay_announced [of t env l]
  by blast

lemma after_skip_eq:
  "after_skip = (mounted sample_episodes 1 Map.empty True)
      \<lparr>skipJustHappenedRef := True, canplayListener := Some sample_listener, nextListener := 1\<rparr>"
  by (simp add: after_skip_def effect_skip_def playerProps_def currentEpisode_def mounted_def
      sample_episodes_def sample_listener_def Let_def)

lemmas eval_defs =
  playerProps_def currentEpisode_def mounted_def sample_episodes_def sample_listener_def
  sample_env_def handleCanPlay_def handlePlay_def hasAnnounced_def setAnnouncedFlag_def
  audio_pause_def audio_play_def set_currentTime_def getSavedProgress_def storageKey_def
  announce_def announcePodcastNameAndWait_def announce_text_def await_announce_def
  utterance_event_def handleEndOrAbort_def play_settled_def finish_canplay_def
  removeEventListener_def speaks_def claim_trace_def after_trace_def Let_def

theorem at_most_one_announcement_witness:
  "\<not> announcedRef after_skip
   \<and> audioMounted after_skip
   \<and> source (playerProps after_skip) \<noteq> []
   \<and> audioUrl (playerProps after_skip) \<noteq> []
   \<and> announcedRef (after_skip\<lparr>announcedRef := True\<rparr>)
   \<and> trace (run sample_env (playerProps after_skip)
         [CanPlay, UserPlay, UttEvent 0 End, UserPlay, CanPlay, PlaySettled] after_skip)
        = [MarkAnnounced, AudioPause, SpeechCancel, Speak 0, AudioPlay]
   \<and> speaks (trace (run sample_env (playerProps after_skip)
         [CanPlay, UserPlay, UttEvent 0 End, UserPlay, CanPlay, PlaySettled] after_skip)) \<le> 1
   \<and> trace (handlePlay sample_env (playerProps after_skip) after_skip)
        = [MarkAnnounced, AudioPause, SpeechCancel, Speak 0]
   \<and> trace (handleCanPlay sample_env sample_listener after_skip)
        = [MarkAnnounced, AudioPause, SpeechCancel, Speak 0]
   \<and> trace (handlePlay sample_env (playerProps after_skip) (after_skip\<lparr>announcedRef := True\<rparr>)) = []
   \<and> trace (handleCanPlay sample_env sample_listener (after_skip\<lparr>announcedRef := True\<rparr>)) = []"
  using at_most_one_announcement [where s = after_skip and env = sample_env
      and p = "playerProps after_skip"
      and evs = "[CanPlay, UserPlay, UttEvent 0 End, UserPlay, CanPlay, PlaySettled]"
      and l = sample_listener and t = "after_skip\<lparr>announcedRef := True\<rparr>"]
  by (simp add: after_skip_eq eval_defs)


section \<open>Natural end of the last episode\<close>

text \<open>
  With the props \<open>EpisodeList\<close> passes, \<open>handleEnded\<close> clears the progress, then moves the
  index twice (once as \<open>onEnded\<close>, once as \<open>onClickNext\<close>) and never speaks.
\<close>

lemma handleEnded_from_list:
  "handleEnded env (playerProps s) s =
     handleNext ((handleNext (clearProgress (audioUrl (playerProps s)) s))
       \<lparr>skipJustHappenedRef := True\<rparr>)"
  by (simp add: handleEnded_def playerProps_def Let_def)

lemma handleEnded_from_list_silent:
  "trace (handleEnded env (playerProps s) s) = trace s
   \<and> utterances (handleEnded env (playerProps s) s) = utterances s"
  by (simp add: handleEnded_from_list handleNext_def clearProgress_def)

text \<open>Even a player that is told \<open>isLastEpisode\<close> moves the index: \<open>onEnded\<close> runs before the test.\<close>

lemma handleEnded_last_flag_still_advances:
  "currentIndex (handleEnded env ((playerProps s)\<lparr>isLastEpisode := Some True\<rparr>) s)
     = currentIndex (handleNext s)"
  by (simp add: handleEnded_def playerProps_def announce_def announcePodcastNameAndWait_def
      await_announce_def handleNext_def clearProgress_def Let_def)

text \<open>
  C2. Three episodes, the third one playing with a saved position, and the track ends.
  The saved position is removed. No farewell is spoken: no utterance is created and the
  trace stays empty. The index does not stay on the last episode: it moves twice,
  from 2 over 0 to 1, with the skip flag set.
\<close>

theorem last_episode_end_advances:
  "currentEpisode last_playing = Some (last sample_episodes)
   \<and> localStorage last_playing (storageKey ''c.mp3'') = Some ''42''
   \<and> localStorage (handleEnded sample_env (playerProps last_playing) last_playing)
        (storageKey ''c.mp3'') = None
   \<and> utterances (handleEnded sample_env (playerProps last_playing) last_playing) = []
   \<and> trace (handleEnded sample_env (playerProps last_playing) last_playing) = []
   \<and> skipJustHappenedRef (handleEnded sample_env (playerProps last_playing) last_playing)
   \<and> currentIndex last_playing = Num 2
   \<and> currentIndex (handleEnded sample_env (playerProps last_playing) last_playing) = Num 1"
  by (simp add: last_playing_def eval_defs handleEnded_def clearProgress_def handleNext_def)


lemma handleEnded_farewell_branch:
  assumes "isLastEpisode p = Some True" "speechAvailable s" "\<not> isAnnouncing s" "onEnded p = None"
  shows "map utt_text (utterances (handleEnded env p s)) = map utt_text (utterances s) @ [farewell]"
  using assms
  by (simp add: handleEnded_def announce_def announcePodcastNameAndWait_def await_announce_def
      announce_text_def clearProgress_def Let_def)

section \<open>The busy guard\<close>

lemma error_event_settles:
  assumes "uid < length (utterances s)" "settled (utterances s ! uid) = None"
  shows "settled (utterances (utterance_event uid Error s) ! uid) = Some Ended"
  using assms
  by (simp add: utterance_event_def handleEndOrAbort_def Let_def run_cont_fields
      split: option.splits)

lemma error_event_resumes:
  assumes "uid < length (utterances s)" "settled (utterances s ! uid) = None"
    "awaiter (utterances s ! uid) = Some k"
  shows "utterance_event uid Error s =
     run_cont k Ended
       (s\<lparr>isAnnouncing := False,
          utterances := (utterances s)[uid := (utterances s ! uid)\<lparr>settled := Some Ended\<rparr>]\<rparr>)"
  using assms
  by (simp add: utterance_event_def handleEndOrAbort_def Let_def)

lemma announce_short_circuit:
  assumes "isAnnouncing s \<or> \<not> speechAvailable s"
  shows "announce env name isContinuing pd skipPrefix s = (Inl Ended, s)"
  using assms by (auto simp add: announce_def announcePodcastNameAndWait_def)

text \<open>
  C3. When the busy flag is set or the page has no speech synthesis, \<open>announce\<close> leaves
  the state as it is (no utterance, nothing recorded to wait for) and its promise is
  resolved as \<open>'ended'\<close>, so that the awaiting caller goes on at once with that result.
  An \<open>error\<close> event on an utterance whose promise is pending resolves it as \<open>'ended'\<close>,
  and the caller waiting on it goes on with that result.
\<close>

theorem announce_guard:
  "(isAnnouncing s \<or> \<not> speechAvailable s \<longrightarrow>
      announce env name isContinuing pd skipPrefix s = (Inl Ended, s)
      \<and> await_announce (fst (announce env name isContinuing pd skipPrefix s)) k
           (snd (announce env name isContinuing pd skipPrefix s)) = run_cont k Ended s)
   \<and> (uid < length (utterances t) \<and> settled (utterances t ! uid) = None \<longrightarrow>
        settled (utterances (utterance_event uid Error t) ! uid) = Some Ended
        \<and> (\<forall>c. awaiter (utterances t ! uid) = Some c \<longrightarrow>
              utterance_event uid Error t =
                run_cont c Ended
                  (t\<lparr>isAnnouncing := False,
                     utterances := (utterances t)[uid := (utterances t ! uid)\<lparr>settled := Some Ended\<rparr>]\<rparr>)))"
  using announce_short_circuit [of s env name isContinuing pd skipPrefix]
    error_event_settles [of uid t] error_event_resumes [of uid t]
  by (auto simp add: await_announce_def)

theorem announce_guard_witness:
  "isAnnouncing announcing
   \<and> announce sample_env ''B'' False None False announcing = (Inl Ended, announcing)
   \<and> \<not> speechAvailable (mounted sample_episodes 1 Map.empty False)
   \<and> announce sample_env ''B'' False None False (mounted sample_episodes 1 Map.empty False)
        = (Inl Ended, mounted sample_episodes 1 Map.empty False)
   \<and> length (utterances announcing) = 1
   \<and> settled (utterances announcing ! 0) = None
   \<and> awaiter (utterances announcing ! 0) = Some (KPlay (Num 0))
   \<and> settled (utterances (utterance_event 0 Error announcing) ! 0) = Some Ended
   \<and> trace (utterance_event 0 Error announcing) = trace announcing @ [AudioPlay]"
  using announce_guard [where s = announcing and env = sample_env and name = "''B''"
      and isContinuing = False and pd = None and skipPrefix = False and k = KEnded
      and uid = 0 and t = announcing]
    announce_guard [where s = "mounted sample_episodes 1 Map.empty False" and env = sample_env
      and name = "''B''" and isContinuing = False and pd = None and skipPrefix = False
      and k = KEnded and uid = 0 and t = announcing]
  by (simp add: announcing_def after_skip_eq eval_defs)

section \<open>The spoken text\<close>

lemma announce_speaks:
  assumes "speechAvailable s" "\<not> isAnnouncing s"
  shows "map utt_text (utterances (snd (announce env name c pd sp s)))
           = map utt_text (utterances s) @ [announce_text env name c pd sp]"
  using assms by (simp add: announce_def announcePodcastNameAndWait_def)

lemma handlePlay_speaks:
  assumes "speechAvailable s" "\<not> isAnnouncing s" "\<not> announcedRef s"
    "audioMounted s" "source p \<noteq> []" "audioUrl p \<noteq> []"
  shows "map utt_text (utterances (handlePlay env p s))
           = map utt_text (utterances s) @
             [announce_text env (source p) (js_gt (getSavedProgress env (audioUrl p) s) (Num 2))
                (pubDate p) False]"
  using assms
  by (simp add: handlePlay_def hasAnnounced_def setAnnouncedFlag_def audio_pause_def
      getSavedProgress_upd announce_def announcePodcastNameAndWait_def await_announce_def
      Let_def map_update del: run_cont.simps)

lemma handleCanPlay_speaks:
  assumes "speechAvailable s" "\<not> isAnnouncing s" "\<not> announcedRef s"
  shows "map utt_text (utterances (handleCanPlay env l s))
           = map utt_text (utterances s) @
             [announce_text env (l_source l)
                (js_gt (getSavedProgress env (l_audioUrl l) s) (Num 2)) (l_pubDate l) False]"
  using assms
  by (simp add: handleCanPlay_def hasAnnounced_def setAnnouncedFlag_def audio_pause_def
      getSavedProgress_upd announce_def announcePodcastNameAndWait_def await_announce_def
      Let_def map_update del: run_cont.simps)

text \<open>
  C4. The text is the name alone with \<open>skipPrefix\<close>; otherwise, with a publication date
  (a non-empty string), "Continuing name, from weekday at time." when continuing and
  "From name, on weekday at time." when not; otherwise, that is with no publication
  date or with the empty string for one, "From name.". It is the text of the utterance
  \<open>announce\<close> creates, and both callers pass the comparison of the saved offset with 2
  as \<open>isContinuing\<close>.
\<close>

theorem spoken_text:
  "announce_text env name isContinuing pd True = name
   \<and> (d \<noteq> [] \<longrightarrow>
        announce_text env name True (Some d) False
          = ''Continuing '' @ name @ '', from '' @ weekdayOf env d @ '' at '' @ timeOf env d @ ''.''
        \<and> announce_text env name False (Some d) False
          = ''From '' @ name @ '', on '' @ weekdayOf env d @ '' at '' @ timeOf env d @ ''.'')
   \<and> announce_text env name isContinuing None False = ''From '' @ name @ ''.''
   \<and> announce_text env name isContinuing (Some []) False = ''From '' @ name @ ''.''
   \<and> (speechAvailable s \<and> \<not> isAnnouncing s \<longrightarrow>
        map utt_text (utterances (snd (announce env name isContinuing pd skipPrefix s)))
          = map utt_text (utterances s) @ [announce_text env name isContinuing pd skipPrefix])
   \<and> (speechAvailable s \<and> \<not> isAnnouncing s \<and> \<not> announcedRef s
        \<and> audioMounted s \<and> source p \<noteq> [] \<and> audioUrl p \<noteq> [] \<longrightarrow>
        map utt_text (utterances (handlePlay env p s))
          = map utt_text (utterances s) @
            [announce_text env (source p) (js_gt (getSavedProgress env (audioUrl p) s) (Num 2))
               (pubDate p) False])
   \<and> (speechAvailable s \<and> \<not> isAnnouncing s \<and> \<not> announcedRef s \<longrightarrow>
        map utt_text (utterances (handleCanPlay env l s))
          = map utt_text (utterances s) @
            [announce_text env (l_source l)
               (js_gt (getSavedProgress env (l_audioUrl l) s) (Num 2)) (l_pubDate l) False])"
  using announce_speaks [of s env name isContinuing pd skipPrefix]
    handlePlay_speaks [of s p env] handleCanPlay_speaks [of s env l]
  by (simp add: announce_text_def)

theorem spoken_text_witness:
  "announce_text sample_env farewell False None True = farewell
   \<and> ''2024-05-07T09:00:00Z'' \<noteq> []
   \<and> announce_text sample_env ''B'' True (Some ''2024-05-07T09:00:00Z'') False
        = ''Continuing B, from Tuesday at 9:00 AM.''
   \<and> announce_text sample_env ''B'' False (Some ''2024-05-07T09:00:00Z'') False
        = ''From B, on Tuesday at 9:00 AM.''
   \<and> announce_text sample_env ''B'' False None False = ''From B.''
   \<and> announce_text sample_env ''B'' False (Some []) False = ''From B.''
   \<and> speechAvailable resumed \<and> \<not> isAnnouncing resumed \<and> \<not> announcedRef resumed
   \<and> audioMounted resumed
   \<and> source (playerProps resumed) \<noteq> [] \<and> audioUrl (playerProps resumed) \<noteq> []
   \<and> getSavedProgress sample_env ''b.mp3'' resumed = Num 42
   \<and> map utt_text (utterances (handlePlay sample_env (playerProps resumed) resumed))
        = [''Continuing B, from Tuesday at 9:00 AM.'']
   \<and> map utt_text (utterances (handleCanPlay sample_env sample_listener resumed))
        = [''Continuing B, from Tuesday at 9:00 AM.'']
   \<and> map utt_text (utterances (handlePlay sample_env (playerProps after_skip) after_skip))
        = [''From B, on Tuesday at 9:00 AM.'']"
  using spoken_text [where env = sample_env and name = farewell and isContinuing = False
      and pd = None and d = "''2024-05-07T09:00:00Z''" and s = resumed and skipPrefix = True
      and p = "playerProps resumed" and l = sample_listener]
    spoken_text [where env = sample_env and name = "''B''" and isContinuing = False
      and pd = None and d = "''2024-05-07T09:00:00Z''" and s = after_skip and skipPrefix = False
      and p = "playerProps after_skip" and l = sample_listener]
  by (simp add: resumed_def after_skip_eq eval_defs farewell_def)

section \<open>The throttled progress store\<close>

lemma store_step_throttled:
  assumes "saveTimeout s = Some due" "clock s + elapsed (e # es) < due"
  shows "saveTimeout (store_step env e s) = Some due
       \<and> clock (store_step env e s) + elapsed es < due
       \<and> localStorage (store_step env e s) = localStorage s"
  using assms
  by (cases e) (simp_all add: elapse_def fire_save_timer_def handleListen_def)

lemma store_run_throttled:
  "saveTimeout s = Some due \<Longrightarrow> clock s + elapsed es < due
   \<Longrightarrow> localStorage (store_run env es s) = localStorage s"
proof (induction es arbitrary: s)
  case Nil
  then show ?case by simp
next
  case (Cons e es)
  from store_step_throttled [OF Cons.prems, of env]
  have a: "saveTimeout (store_step env e s) = Some due"
    and b: "clock (store_step env e s) + elapsed es < due"
    and c: "localStorage (store_step env e s) = localStorage s" by simp_all
  show ?case using Cons.IH [OF a b] c by simp
qed

lemma getSavedProgress_storage:
  "localStorage s' = localStorage s \<Longrightarrow> getSavedProgress env url s' = getSavedProgress env url s"
  by (simp add: getSavedProgress_def)

lemma handleListen_saves:
  assumes "audioMounted s" "url \<noteq> []" "saveTimeout s = None"
  shows "localStorage (handleListen env url s) (storageKey url) = Some (toString env (currentTime s))"
    and "saveTimeout (handleListen env url s) = Some (clock s + SAVE_INTERVAL_MS)"
    and "clock (handleListen env url s) = clock s"
  using assms by (simp_all add: handleListen_def)

text \<open>
  C7. After a report that is stored (audio element mounted, a non-empty key, no throttle
  timer armed), the saved progress of the key is the reported position, for a position
  that its string form gives back. Whatever happens while less than 5000 ms pass in all
  (time passing, the timer being polled, further reports for any key and position), the
  storage stays as that first report left it.
\<close>

theorem save_load_throttled:
  assumes "audioMounted s" and "url \<noteq> []" and "saveTimeout s = None"
    and "numberOf env (toString env (currentTime s)) = currentTime s"
    and "toString env (currentTime s) \<noteq> []"
    and "elapsed es < SAVE_INTERVAL_MS"
  shows "getSavedProgress env url (handleListen env url s) = currentTime s
       \<and> localStorage (store_run env es (handleListen env url s))
           = localStorage (handleListen env url s)
       \<and> getSavedProgress env url (store_run env es (handleListen env url s)) = currentTime s"
proof -
  let ?s1 = "handleListen env url s"
  have a: "getSavedProgress env url ?s1 = currentTime s"
    using assms handleListen_saves(1) [of s url env] by (simp add: getSavedProgress_def)
  have "clock ?s1 + elapsed es < clock s + SAVE_INTERVAL_MS"
    using assms handleListen_saves(3) [of s url env] by simp
  then have b: "localStorage (store_run env es ?s1) = localStorage ?s1"
    using store_run_throttled [of ?s1 "clock s + SAVE_INTERVAL_MS" es env]
      handleListen_saves(2) [of s url env] assms by simp
  from a b getSavedProgress_storage [OF b, of env url] show ?thesis by simp
qed

theorem save_load_throttled_witness:
  "audioMounted listening \<and> ''a.mp3'' \<noteq> [] \<and> saveTimeout listening = None
   \<and> numberOf sample_env (toString sample_env (currentTime listening)) = currentTime listening
   \<and> toString sample_env (currentTime listening) \<noteq> []
   \<and> elapsed [Elapse 3000, TimerFires, Listen ''a.mp3'' (Num (15 / 2)), Elapse 1999, TimerFires,
        Listen ''b.mp3'' (Num (15 / 2))] < SAVE_INTERVAL_MS
   \<and> getSavedProgress sample_env ''a.mp3'' (handleListen sample_env ''a.mp3'' listening) = Num 42
   \<and> getSavedProgress sample_env ''a.mp3''
        (store_run sample_env
           [Elapse 3000, TimerFires, Listen ''a.mp3'' (Num (15 / 2)), Elapse 1999, TimerFires,
            Listen ''b.mp3'' (Num (15 / 2))]
           (handleListen sample_env ''a.mp3'' listening)) = Num 42
   \<and> getSavedProgress sample_env ''b.mp3''
        (store_run sample_env
           [Elapse 3000, TimerFires, Listen ''a.mp3'' (Num (15 / 2)), Elapse 1999, TimerFires,
            Listen ''b.mp3'' (Num (15 / 2))]
           (handleListen sample_env ''a.mp3'' listening)) = Num 0"
  using save_load_throttled [where s = listening and url = "''a.mp3''" and env = sample_env
      and es = "[Elapse 3000, TimerFires, Listen ''a.mp3'' (Num (15 / 2)), Elapse 1999, TimerFires,
        Listen ''b.mp3'' (Num (15 / 2))]"]
  by (simp add: listening_def eval_defs handleListen_def elapse_def fire_save_timer_def
      SAVE_INTERVAL_MS_def)

text \<open>Once the window is over and the timer has fired, the next report is stored.\<close>

lemma save_after_window:
  "getSavedProgress sample_env ''a.mp3''
     (store_run sample_env [Elapse 5000, TimerFires, Listen ''a.mp3'' (Num (15 / 2))]
        (handleListen sample_env ''a.mp3'' listening)) = Num (15 / 2)"
  by (simp add: listening_def eval_defs handleListen_def elapse_def fire_save_timer_def
      SAVE_INTERVAL_MS_def)

section \<open>Hardware skips\<close>

lemma cancelAnnouncement_available:
  "speechAvailable s \<Longrightarrow>
     cancelAnnouncement s = (None, s\<lparr>trace := trace s @ [SpeechCancel], isAnnouncing := False\<rparr>)"
  by (simp add: cancelAnnouncement_def)

text \<open>
  Where speech synthesis exists, a hardware skip sets the skip flag, cancels the
  speech, calls the sequencer and arms a resume timer 250 ms ahead.
\<close>

lemma nexttrack_with_speech:
  assumes "speechAvailable s" "onClickNext p = Some f"
  shows "nexttrack p s =
     (None,
      (f (s\<lparr>skipJustHappenedRef := True, trace := trace s @ [SpeechCancel], isAnnouncing := False\<rparr>))
        \<lparr>resumeTimers :=
           resumeTimers (f (s\<lparr>skipJustHappenedRef := True, trace := trace s @ [SpeechCancel],
                              isAnnouncing := False\<rparr>)) @
           [clock (f (s\<lparr>skipJustHappenedRef := True, trace := trace s @ [SpeechCancel],
                        isAnnouncing := False\<rparr>)) + 250]\<rparr>)"
  using assms by (simp add: nexttrack_def cancelAnnouncement_def RESUME_DELAY_MS_def Let_def)

lemma previoustrack_with_speech:
  assumes "speechAvailable s" "onClickPrevious p = Some f"
  shows "previoustrack p s =
     (None,
      (f (s\<lparr>skipJustHappenedRef := True, trace := trace s @ [SpeechCancel], isAnnouncing := False\<rparr>))
        \<lparr>resumeTimers :=
           resumeTimers (f (s\<lparr>skipJustHappenedRef := True, trace := trace s @ [SpeechCancel],
                              isAnnouncing := False\<rparr>)) @
           [clock (f (s\<lparr>skipJustHappenedRef := True, trace := trace s @ [SpeechCancel],
                        isAnnouncing := False\<rparr>)) + 250]\<rparr>)"
  using assms by (simp add: previoustrack_def cancelAnnouncement_def RESUME_DELAY_MS_def Let_def)

text \<open>The resume attempt is made whatever the announced flag and the busy flag are.\<close>

lemma fire_resume_timer_plays:
  assumes "resumeTimers s = due # rest" "due \<le> clock s" "audioMounted s"
  shows "trace (fire_resume_timer s) = trace s @ [AudioPlay]"
    and "resumeTimers (fire_resume_timer s) = rest"
  using assms by (simp_all add: fire_resume_timer_def audio_play_def Let_def)

lemma nexttrack_from_list:
  assumes "speechAvailable s"
  shows "currentIndex (snd (nexttrack (playerProps s) s)) = currentIndex (handleNext s)"
    and "skipJustHappenedRef (snd (nexttrack (playerProps s) s))"
    and "\<not> isAnnouncing (snd (nexttrack (playerProps s) s))"
    and "resumeTimers (snd (nexttrack (playerProps s) s)) = resumeTimers s @ [clock s + 250]"
    and "trace (snd (nexttrack (playerProps s) s)) = trace s @ [SpeechCancel]"
  using assms
  by (simp_all add: nexttrack_with_speech [where f = handleNext] playerProps_def handleNext_def)

text \<open>
  C8. Where the page has no speech synthesis, the handler raises at the cancel: the skip flag
  is set, but the index is not changed and no resume is scheduled.
\<close>

theorem media_skip_without_speech:
  "nexttrack (playerProps (mounted sample_episodes 0 Map.empty False))
       (mounted sample_episodes 0 Map.empty False)
     = (Some ReferenceError, (mounted sample_episodes 0 Map.empty False)\<lparr>skipJustHappenedRef := True\<rparr>)
   \<and> previoustrack (playerProps (mounted sample_episodes 0 Map.empty False))
       (mounted sample_episodes 0 Map.empty False)
     = (Some ReferenceError, (mounted sample_episodes 0 Map.empty False)\<lparr>skipJustHappenedRef := True\<rparr>)
   \<and> currentIndex ((mounted sample_episodes 0 Map.empty False)\<lparr>skipJustHappenedRef := True\<rparr>) = Num 0
   \<and> resumeTimers ((mounted sample_episodes 0 Map.empty False)\<lparr>skipJustHappenedRef := True\<rparr>) = []"
  by (simp add: nexttrack_def previoustrack_def cancelAnnouncement_def playerProps_def mounted_def)

section \<open>After a cancel\<close>

text \<open>
  C9. When \<open>cancelAnnouncement\<close> returns, the busy flag is false and speech synthesis
  exists, and a call of \<open>announce\<close> in that state creates and speaks a new utterance,
  its promise pending.
\<close>

theorem cancel_frees_engine:
  assumes "cancelAnnouncement s = (None, s')"
  shows "\<not> isAnnouncing s' \<and> speechAvailable s'
       \<and> announce env name isContinuing pd skipPrefix s' =
           (Inr (length (utterances s')),
            s'\<lparr>isAnnouncing := True,
               utterances := utterances s' @
                 [\<lparr>utt_text = announce_text env name isContinuing pd skipPrefix,
                   utt_voice = cachedGoogleVoice s', settled = None, awaiter = None\<rparr>],
               trace := trace s' @ [SpeechCancel, Speak (length (utterances s'))]\<rparr>)"
  using assms
  by (auto simp add: cancelAnnouncement_def announce_def announcePodcastNameAndWait_def
      split: if_splits)

theorem cancel_frees_engine_witness:
  "isAnnouncing announcing
   \<and> cancelAnnouncement announcing
        = (None, announcing\<lparr>trace := trace announcing @ [SpeechCancel], isAnnouncing := False\<rparr>)
   \<and> \<not> isAnnouncing (snd (cancelAnnouncement announcing))
   \<and> fst (announce sample_env ''B'' False None False (snd (cancelAnnouncement announcing))) = Inr 1
   \<and> map utt_text (utterances (snd (announce sample_env ''B'' False None False
         (snd (cancelAnnouncement announcing)))))
        = [''From B, on Tuesday at 9:00 AM.'', ''From B.'']
   \<and> trace (snd (announce sample_env ''B'' False None False (snd (cancelAnnouncement announcing))))
        = [MarkAnnounced, AudioPause, SpeechCancel, Speak 0, SpeechCancel, SpeechCancel, Speak 1]"
  using cancel_frees_engine [where s = announcing
      and s' = "announcing\<lparr>trace := trace announcing @ [SpeechCancel], isAnnouncing := False\<rparr>"
      and env = sample_env and name = "''B''" and isContinuing = False and pd = None
      and skipPrefix = False]
  by (simp add: announcing_def after_skip_eq eval_defs cancelAnnouncement_def)

section \<open>The seek after an announcement\<close>

lemma utterance_event_pending:
  assumes "uid < length (utterances s)" "settled (utterances s ! uid) = None"
    "awaiter (utterances s ! uid) = Some k"
  shows "utterance_event uid ev s =
     run_cont k (result_of ev)
       (s\<lparr>isAnnouncing := False,
          utterances := (utterances s)[uid := (utterances s ! uid)\<lparr>settled := Some (result_of ev)\<rparr>]\<rparr>)"
  using assms
  by (simp add: utterance_event_def handleEndOrAbort_def Let_def)

lemma run_cont_seeks:
  assumes "js_gt g (Num 0)"
  shows "currentTime (run_cont (KPlay g) r s) = g"
    and "currentTime (run_cont (KCanPlay i g) r s) = g"
  using assms
  by (simp_all add: Let_def set_currentTime_def audio_play_def finish_canplay_fields)

lemma handlePlay_awaits:
  assumes "\<not> announcedRef s" "audioMounted s" "source p \<noteq> []" "audioUrl p \<noteq> []"
    "speechAvailable s" "\<not> isAnnouncing s"
  shows "utterances (handlePlay env p s) =
     utterances s @
       [\<lparr>utt_text = announce_text env (source p)
            (js_gt (getSavedProgress env (audioUrl p) s) (Num 2)) (pubDate p) False,
         utt_voice = cachedGoogleVoice s, settled = None,
         awaiter = Some (KPlay (getSavedProgress env (audioUrl p) s))\<rparr>]"
  using assms
  by (simp add: handlePlay_def hasAnnounced_def setAnnouncedFlag_def audio_pause_def
      getSavedProgress_upd announce_def announcePodcastNameAndWait_def await_announce_def
      Let_def del: run_cont.simps)

lemma handleCanPlay_awaits:
  assumes "\<not> announcedRef s" "speechAvailable s" "\<not> isAnnouncing s"
  shows "utterances (handleCanPlay env l s) =
     utterances s @
       [\<lparr>utt_text = announce_text env (l_source l)
            (js_gt (getSavedProgress env (l_audioUrl l) s) (Num 2)) (l_pubDate l) False,
         utt_voice = cachedGoogleVoice s, settled = None,
         awaiter = Some (KCanPlay (lid l) (getSavedProgress env (l_audioUrl l) s))\<rparr>]"
  using assms
  by (simp add: handleCanPlay_def hasAnnounced_def setAnnouncedFlag_def audio_pause_def
      getSavedProgress_upd announce_def announcePodcastNameAndWait_def await_announce_def
      Let_def del: run_cont.simps)

lemma resolved_after:
  assumes "utterances s = us @ [u]" "settled u = None" "awaiter u = Some k"
    "k = KPlay g \<or> k = KCanPlay i g" "js_gt g (Num 0)"
  shows "currentTime (utterance_event (length us) ev s) = g
       \<and> trace (utterance_event (length us) ev s)
           = trace s @ Seek g # (if result_of ev = Ended then [AudioPlay] else [])"
proof -
  have "utterance_event (length us) ev s =
     run_cont k (result_of ev)
       (s\<lparr>isAnnouncing := False,
          utterances := (utterances s)[length us := (utterances s ! length us)\<lparr>settled := Some (result_of ev)\<rparr>]\<rparr>)"
    by (rule utterance_event_pending) (use assms in simp_all)
  then show ?thesis
    using assms(4,5) run_cont_seeks [OF assms(5)]
    by (auto simp add: run_cont_trace after_trace_def simp del: run_cont.simps)
qed

text \<open>When the announcement resolves at once, its result is \<open>'ended'\<close>: seek and play follow in the same turn.\<close>

lemma handlePlay_immediate:
  assumes "\<not> announcedRef s" "audioMounted s" "source p \<noteq> []" "audioUrl p \<noteq> []"
    "isAnnouncing s \<or> \<not> speechAvailable s"
    "js_gt (getSavedProgress env (audioUrl p) s) (Num 0)"
  shows "currentTime (handlePlay env p s) = getSavedProgress env (audioUrl p) s
       \<and> trace (handlePlay env p s)
           = trace s @ [MarkAnnounced, AudioPause, Seek (getSavedProgress env (audioUrl p) s), AudioPlay]"
  using assms
  by (auto simp add: handlePlay_def hasAnnounced_def setAnnouncedFlag_def audio_pause_def
      getSavedProgress_upd announce_def announcePodcastNameAndWait_def await_announce_def
      set_currentTime_def audio_play_def Let_def)

lemma handleCanPlay_immediate:
  assumes "\<not> announcedRef s" "isAnnouncing s \<or> \<not> speechAvailable s"
    "js_gt (getSavedProgress env (l_audioUrl l) s) (Num 0)"
  shows "currentTime (handleCanPlay env l s) = getSavedProgress env (l_audioUrl l) s
       \<and> trace (handleCanPlay env l s)
           = trace s @ [MarkAnnounced, AudioPause, Seek (getSavedProgress env (l_audioUrl l) s), AudioPlay]"
  using assms
  by (auto simp add: handleCanPlay_def hasAnnounced_def setAnnouncedFlag_def audio_pause_def
      getSavedProgress_upd announce_def announcePodcastNameAndWait_def await_announce_def
      set_currentTime_def audio_play_def Let_def)

text \<open>
  C10. In both sequences, when the saved offset is greater than 0 and the announcement
  is pending, whichever event of the utterance resolves it, the playback position is
  then the saved offset, and what is added to the trace is the seek followed by the
  play when the result is \<open>'ended'\<close>, and the seek alone when it is \<open>'interrupted'\<close>.
\<close>

theorem seek_before_result:
  "(\<not> announcedRef s \<and> audioMounted s \<and> source p \<noteq> [] \<and> audioUrl p \<noteq> []
      \<and> speechAvailable s \<and> \<not> isAnnouncing s
      \<and> js_gt (getSavedProgress env (audioUrl p) s) (Num 0) \<longrightarrow>
      currentTime (utterance_event (length (utterances s)) ev (handlePlay env p s))
        = getSavedProgress env (audioUrl p) s
      \<and> trace (utterance_event (length (utterances s)) ev (handlePlay env p s))
        = trace (handlePlay env p s) @
          Seek (getSavedProgress env (audioUrl p) s) #
          (if result_of ev = Ended then [AudioPlay] else []))
   \<and> (\<not> announcedRef s \<and> speechAvailable s \<and> \<not> isAnnouncing s
      \<and> js_gt (getSavedProgress env (l_audioUrl l) s) (Num 0) \<longrightarrow>
      currentTime (utterance_event (length (utterances s)) ev (handleCanPlay env l s))
        = getSavedProgress env (l_audioUrl l) s
      \<and> trace (utterance_event (length (utterances s)) ev (handleCanPlay env l s))
        = trace (handleCanPlay env l s) @
          Seek (getSavedProgress env (l_audioUrl l) s) #
          (if result_of ev = Ended then [AudioPlay] else []))"
proof -
  have a: "currentTime (utterance_event (length (utterances s)) ev (handlePlay env p s))
        = getSavedProgress env (audioUrl p) s
      \<and> trace (utterance_event (length (utterances s)) ev (handlePlay env p s))
        = trace (handlePlay env p s) @
          Seek (getSavedProgress env (audioUrl p) s) #
          (if result_of ev = Ended then [AudioPlay] else [])"
    if "\<not> announcedRef s" "audioMounted s" "source p \<noteq> []" "audioUrl p \<noteq> []"
      "speechAvailable s" "\<not> isAnnouncing s"
      "js_gt (getSavedProgress env (audioUrl p) s) (Num 0)"
    using resolved_after [OF handlePlay_awaits [OF that(1-6)],
        where k = "KPlay (getSavedProgress env (audioUrl p) s)"
          and g = "getSavedProgress env (audioUrl p) s" and i = 0 and ev = ev] that(7)
    by simp
  have b: "currentTime (utterance_event (length (utterances s)) ev (handleCanPlay env l s))
        = getSavedProgress env (l_audioUrl l) s
      \<and> trace (utterance_event (length (utterances s)) ev (handleCanPlay env l s))
        = trace (handleCanPlay env l s) @
          Seek (getSavedProgress env (l_audioUrl l) s) #
          (if result_of ev = Ended then [AudioPlay] else [])"
    if "\<not> announcedRef s" "speechAvailable s" "\<not> isAnnouncing s"
      "js_gt (getSavedProgress env (l_audioUrl l) s) (Num 0)"
    using resolved_after [OF handleCanPlay_awaits [OF that(1-3)],
        where k = "KCanPlay (lid l) (getSavedProgress env (l_audioUrl l) s)"
          and g = "getSavedProgress env (l_audioUrl l) s" and i = "lid l" and ev = ev] that(4)
    by simp
  from a b show ?thesis by blast
qed

theorem seek_before_result_witness:
  "\<not> announcedRef resumed \<and> audioMounted resumed
   \<and> source (playerProps resumed) \<noteq> [] \<and> audioUrl (playerProps resumed) \<noteq> []
   \<and> speechAvailable resumed \<and> \<not> isAnnouncing resumed
   \<and> js_gt (getSavedProgress sample_env (audioUrl (playerProps resumed)) resumed) (Num 0)
   \<and> js_gt (getSavedProgress sample_env (l_audioUrl sample_listener) resumed) (Num 0)
   \<and> result_of Pause = Interrupted
   \<and> currentTime (handlePlay sample_env (playerProps resumed) resumed) = Num 0
   \<and> currentTime (utterance_event 0 Pause (handlePlay sample_env (playerProps resumed) resumed))
        = Num 42
   \<and> trace (utterance_event 0 Pause (handlePlay sample_env (playerProps resumed) resumed))
        = [MarkAnnounced, AudioPause, SpeechCancel, Speak 0, Seek (Num 42)]
   \<and> trace (utterance_event 0 End (handlePlay sample_env (playerProps resumed) resumed))
        = [MarkAnnounced, AudioPause, SpeechCancel, Speak 0, Seek (Num 42), AudioPlay]
   \<and> trace (utterance_event 0 Pause (handleCanPlay sample_env sample_listener resumed))
        = [MarkAnnounced, AudioPause, SpeechCancel, Speak 0, Seek (Num 42)]
   \<and> trace (utterance_event 0 End (handleCanPlay sample_env sample_listener resumed))
        = [MarkAnnounced, AudioPause, SpeechCancel, Speak 0, Seek (Num 42), AudioPlay]"
  using seek_before_result [where s = resumed and p = "playerProps resumed" and env = sample_env
      and ev = Pause and l = sample_listener]
    seek_before_result [where s = resumed and p = "playerProps resumed" and env = sample_env
      and ev = End and l = sample_listener]
  by (simp add: resumed_def after_skip_eq eval_defs)

end
